theory Spec2Isabelle
  imports Complex_Main "HOL-Library.Log_Nat"
begin

section \<open>Python values\<close>

text \<open>
  The exceptions the analysed functions can raise.  A function that may raise returns
  \<open>error + 'a\<close>, with \<open>Inl\<close> for the exception.
\<close>

datatype error = ValueError | IndexError | ZeroDivisionError

text \<open>
  A Python \<open>str\<close> is a list of characters; a \<^typ>\<open>char\<close> stands for a code point below
  256, so that the micro sign of the unit \<open>\<mu>s\<close> (U+00B5) is one character, as it is in the
  pattern of \<open>parse_results\<close>.  Among these code points the decimal digits that \<open>\d\<close>
  matches are \<open>0\<close> to \<open>9\<close>.
\<close>

definition micro :: char where
  "micro = CHR 0xB5"

definition is_digit :: "char \<Rightarrow> bool" where
  "is_digit c = (c \<in> set ''0123456789'')"

text \<open>The character class \<open>[\d.]\<close>.\<close>

definition is_time_char :: "char \<Rightarrow> bool" where
  "is_time_char c = (is_digit c \<or> c = CHR ''.'')"

text \<open>
  A Python \<open>float\<close> is modelled by the rational number it denotes.  An operation rounds
  its exact result to 53 significant bits, ties to even, as binary64 arithmetic does.  The
  exponent range is not bounded: overflow to infinity, subnormal numbers, the sign of zero
  and NaN are outside the model.
\<close>

type_synonym pyfloat = rat

definition round_half_even :: "rat \<Rightarrow> int" where
  "round_half_even x =
     (let f = \<lfloor>x\<rfloor>; r = x - of_int f
      in if r < 1 / 2 then f else if 1 / 2 < r then f + 1 else if even f then f else f + 1)"

definition rnd :: "rat \<Rightarrow> pyfloat" where
  "rnd q =
     (if q = 0 then 0
      else
        let (a, b) = quotient_of \<bar>q\<bar>;
            d = bitlen a - bitlen b;
            e = (if 2 powi d \<le> \<bar>q\<bar> then d - 52 else d - 53)
        in sgn q * of_int (round_half_even (\<bar>q\<bar> / 2 powi e)) * 2 powi e)"

definition float_mul :: "pyfloat \<Rightarrow> pyfloat \<Rightarrow> pyfloat" where
  "float_mul a b = rnd (a * b)"

definition float_truediv :: "pyfloat \<Rightarrow> pyfloat \<Rightarrow> error + pyfloat" where
  "float_truediv a b = (if b = 0 then Inl ZeroDivisionError else Inr (rnd (a / b)))"

definition float_of_int :: "int \<Rightarrow> pyfloat" where
  "float_of_int i = rnd (of_int i)"

subsection \<open>\<open>int(s)\<close> and \<open>float(s)\<close> on the captured groups\<close>

definition digit_val :: "char \<Rightarrow> nat" where
  "digit_val c = of_char c - of_char CHR ''0''"

definition digits_val :: "string \<Rightarrow> int" where
  "digits_val s = foldl (\<lambda>n c. 10 * n + int (digit_val c)) 0 s"

text \<open>
  \<open>int(s)\<close> for a string \<open>s\<close> of decimal digits, which is what the group \<open>(\d+)\<close>
  captures; it does not raise on such a string (the interpreter's limit on the length of
  the numeral is not modelled).
\<close>

definition py_int :: "string \<Rightarrow> int" where
  "py_int s = digits_val s"

text \<open>
  \<open>float(s)\<close> for a string \<open>s\<close> of digits and dots, which is what the group \<open>([\d.]+)\<close>
  captures: a decimal numeral has at most one dot and at least one digit, and is rounded
  to the nearest float; any other such string raises \<open>ValueError\<close>.
\<close>

definition py_float :: "string \<Rightarrow> error + pyfloat" where
  "py_float s =
     (let ip = takeWhile is_digit s; r = dropWhile is_digit s
      in case r of
           [] \<Rightarrow> if ip = [] then Inl ValueError else Inr (rnd (of_int (digits_val ip)))
         | c # fp \<Rightarrow>
             if c = CHR ''.'' \<and> list_all is_digit fp \<and> (ip \<noteq> [] \<or> fp \<noteq> [])
             then Inr (rnd (of_int (digits_val (ip @ fp)) / 10 ^ length fp))
             else Inl ValueError)"

section \<open>The pattern of \<open>parse_results\<close>\<close>

text \<open>
  \<open>Threads: (\d+).*?Execution Time: ([\d.]+)(ms|\<mu>s|s)\<close> under \<open>re.DOTALL\<close>, as a
  backtracking matcher.  Each quantifier takes the rest of the pattern as a continuation
  and tries its alternatives in the order of the regular expression engine: a greedy
  quantifier the longest repetition first, the lazy one the shortest first, the
  alternation from left to right.  The first success is the match.
\<close>

fun expect :: "string \<Rightarrow> string \<Rightarrow> string option" where
  "expect [] s = Some s"
| "expect (p # ps) [] = None"
| "expect (p # ps) (c # cs) = (if p = c then expect ps cs else None)"

fun give_back :: "nat \<Rightarrow> string \<Rightarrow> (string \<Rightarrow> 'a option) \<Rightarrow> (string \<times> 'a) option" where
  "give_back 0 s k = None"
| "give_back (Suc n) s k =
     (case k (drop (Suc n) s) of
        Some r \<Rightarrow> Some (take (Suc n) s, r)
      | None \<Rightarrow> give_back n s k)"

text \<open>\<open>C+\<close> for a character class \<open>C\<close>: at least one character, greedy.\<close>

definition greedy_plus ::
  "(char \<Rightarrow> bool) \<Rightarrow> string \<Rightarrow> (string \<Rightarrow> 'a option) \<Rightarrow> (string \<times> 'a) option" where
  "greedy_plus C s k = give_back (length (takeWhile C s)) s k"

text \<open>\<open>.*?\<close> under \<open>re.DOTALL\<close>: any characters, as few as possible.\<close>

fun lazy_any :: "string \<Rightarrow> (string \<Rightarrow> 'a option) \<Rightarrow> 'a option" where
  "lazy_any [] k = k []"
| "lazy_any (c # cs) k = (case k (c # cs) of Some r \<Rightarrow> Some r | None \<Rightarrow> lazy_any cs k)"

text \<open>\<open>(ms|\<mu>s|s)\<close>, the last item of the pattern.\<close>

definition unit_alt :: "string \<Rightarrow> (string \<times> string) option" where
  "unit_alt s =
     (case expect ''ms'' s of
        Some r \<Rightarrow> Some (''ms'', r)
      | None \<Rightarrow>
          (case expect [micro, CHR ''s''] s of
             Some r \<Rightarrow> Some ([micro, CHR ''s''], r)
           | None \<Rightarrow>
               (case expect ''s'' s of
                  Some r \<Rightarrow> Some (''s'', r)
                | None \<Rightarrow> None)))"

text \<open>The units the alternation can capture.\<close>

definition units :: "string set" where
  "units = {''ms'', [micro, CHR ''s''], ''s''}"

definition time_field :: "string \<Rightarrow> (string \<times> string \<times> string) option" where
  "time_field s =
     (case expect ''Execution Time: '' s of
        None \<Rightarrow> None
      | Some s' \<Rightarrow> greedy_plus is_time_char s' unit_alt)"

text \<open>
  An attempt to match the pattern at the start of \<open>s\<close>: the three groups and the text
  after the match.
\<close>

definition match_here :: "string \<Rightarrow> (string \<times> string \<times> string \<times> string) option" where
  "match_here s =
     (case expect ''Threads: '' s of
        None \<Rightarrow> None
      | Some s' \<Rightarrow> greedy_plus is_digit s' (\<lambda>s''. lazy_any s'' time_field))"

lemma expect_Some: "expect p s = Some r \<Longrightarrow> s = p @ r"
  by (induction p s rule: expect.induct) (auto split: if_splits)

lemma give_back_length:
  assumes "give_back n s k = Some (g, r)" and "\<And>t x. k t = Some x \<Longrightarrow> f x \<le> length t"
  shows "f r \<le> length s"
  using assms
proof (induction n)
  case 0
  then show ?case by simp
next
  case (Suc n)
  show ?case
  proof (cases "k (drop (Suc n) s)")
    case None
    with Suc show ?thesis by simp
  next
    case (Some x)
    with Suc.prems(1) have "r = x" by simp
    with Some Suc.prems(2) have "f r \<le> length (drop (Suc n) s)" by blast
    then show ?thesis by simp
  qed
qed

lemma lazy_any_length:
  assumes "lazy_any s k = Some r" and "\<And>t x. k t = Some x \<Longrightarrow> f x \<le> length t"
  shows "f r \<le> length s"
  using assms
proof (induction s)
  case Nil
  from Nil.prems(1) have "k [] = Some r" by simp
  from Nil.prems(2) [OF this] show ?case .
next
  case (Cons c cs)
  show ?case
  proof (cases "k (c # cs)")
    case None
    with Cons have "f r \<le> length cs" by simp
    then show ?thesis by simp
  next
    case (Some x)
    with Cons.prems(1) have "k (c # cs) = Some r" by simp
    from Cons.prems(2) [OF this] show ?thesis .
  qed
qed

lemma unit_alt_length: "unit_alt s = Some (u, r) \<Longrightarrow> length r \<le> length s"
  by (auto simp: unit_alt_def split: option.splits dest!: expect_Some)

lemma time_field_length:
  assumes "time_field s = Some (g, u, r)"
  shows "length r \<le> length s"
proof -
  from assms obtain s' where s': "expect ''Execution Time: '' s = Some s'"
    and g: "greedy_plus is_time_char s' unit_alt = Some (g, u, r)"
    by (auto simp: time_field_def split: option.splits)
  have "(length \<circ> snd) (u, r) \<le> length s'"
    using g unfolding greedy_plus_def
    by (rule give_back_length) (auto dest: unit_alt_length)
  moreover have "length s' \<le> length s"
    using expect_Some [OF s'] by simp
  ultimately show ?thesis by simp
qed

lemma match_here_shorter:
  assumes "match_here s = Some (g1, g2, g3, r)"
  shows "length r < length s"
proof -
  from assms obtain s' where s': "expect ''Threads: '' s = Some s'"
    and g: "greedy_plus is_digit s' (\<lambda>s''. lazy_any s'' time_field) = Some (g1, g2, g3, r)"
    by (auto simp: match_here_def split: option.splits)
  have k: "(length \<circ> snd \<circ> snd) x \<le> length t" if "lazy_any t time_field = Some x" for t x
    using that
    by (rule lazy_any_length) (auto dest: time_field_length)
  have "(length \<circ> snd \<circ> snd) (g2, g3, r) \<le> length s'"
    using g unfolding greedy_plus_def
    by (rule give_back_length) (rule k)
  moreover have "length s' < length s"
    using expect_Some [OF s'] by simp
  ultimately show ?thesis by simp
qed

text \<open>
  \<open>re.findall\<close>: the matches from left to right, not overlapping.  After a match the
  scan resumes behind it; where the pattern does not match, one character further.
\<close>

function re_findall :: "string \<Rightarrow> (string \<times> string \<times> string) list" where
  "re_findall s =
     (case match_here s of
        Some (g1, g2, g3, r) \<Rightarrow> (g1, g2, g3) # re_findall r
      | None \<Rightarrow> (case s of [] \<Rightarrow> [] | c # cs \<Rightarrow> re_findall cs))"
  by pat_completeness auto
termination
  by (relation "measure length") (auto dest: match_here_shorter)

declare re_findall.simps [simp del]

section \<open>\<open>parse_results\<close>\<close>

text \<open>The conversion to milliseconds in the loop body of \<open>parse_results\<close>.\<close>

definition to_ms :: "pyfloat \<Rightarrow> string \<Rightarrow> error + pyfloat" where
  "to_ms time_value unit =
     (if unit = ''s'' then Inr (float_mul time_value 1000)
      else if unit = [micro, CHR ''s''] then float_truediv time_value 1000
      else Inr time_value)"

fun collect ::
  "(string \<times> string \<times> string) list \<Rightarrow> int list \<Rightarrow> pyfloat list \<Rightarrow>
     error + (int list \<times> pyfloat list)" where
  "collect [] threads times_ms = Inr (threads, times_ms)"
| "collect ((g1, g2, g3) # matches) threads times_ms =
     (let thread_count = py_int g1
      in case py_float g2 of
           Inl e \<Rightarrow> Inl e
         | Inr time_value \<Rightarrow>
             (case to_ms time_value g3 of
                Inl e \<Rightarrow> Inl e
              | Inr time_ms \<Rightarrow>
                  collect matches (threads @ [thread_count]) (times_ms @ [time_ms])))"

text \<open>What one pass of the loop of \<open>parse_results\<close> appends for a match.\<close>

definition converted :: "string \<times> string \<times> string \<Rightarrow> pyfloat \<Rightarrow> bool" where
  "converted = (\<lambda>(g1, g2, u) time_ms. \<exists>time_value.
     py_float g2 = Inr time_value \<and>
     (u = ''s'' \<and> time_ms = float_mul time_value 1000 \<or>
      u = [micro, CHR ''s''] \<and> float_truediv time_value 1000 = Inr time_ms \<or>
      u = ''ms'' \<and> time_ms = time_value))"

text \<open>
  \<open>parse_results\<close> from the point where the file has been read: \<open>content\<close> is the text
  of the file.
\<close>

definition parse_results :: "string \<Rightarrow> error + (int list \<times> pyfloat list)" where
  "parse_results content = collect (re_findall content) [] []"

section \<open>\<open>calculate_speedup\<close> and \<open>calculate_efficiency\<close>\<close>

text \<open>
  A list comprehension \<open>[f x for x in xs]\<close> whose body may raise: the elements are
  computed from left to right and the first exception ends the comprehension.
\<close>

fun comprehension :: "('a \<Rightarrow> error + 'b) \<Rightarrow> 'a list \<Rightarrow> error + 'b list" where
  "comprehension f [] = Inr []"
| "comprehension f (x # xs) =
     (case f x of
        Inl e \<Rightarrow> Inl e
      | Inr y \<Rightarrow> (case comprehension f xs of Inl e \<Rightarrow> Inl e | Inr ys \<Rightarrow> Inr (y # ys)))"

definition calculate_speedup :: "int list \<Rightarrow> pyfloat list \<Rightarrow> error + pyfloat list" where
  "calculate_speedup threads times' =
     (case times' of
        [] \<Rightarrow> Inr []
      | t0 # _ \<Rightarrow>
          if t0 = 0 then Inr []
          else let base_time = t0 in comprehension (\<lambda>t. float_truediv base_time t) times')"

text \<open>
  \<open>s / t * 100\<close> with a float \<open>s\<close> and an int \<open>t\<close>: \<open>t\<close> is converted to a float,
  the division raises when it is zero, and the quotient is multiplied by \<open>100.0\<close>.
\<close>

definition efficiency_of :: "pyfloat \<times> int \<Rightarrow> error + pyfloat" where
  "efficiency_of = (\<lambda>(s, t).
     case float_truediv s (float_of_int t) of
       Inl e \<Rightarrow> Inl e
     | Inr q \<Rightarrow> Inr (float_mul q 100))"

definition calculate_efficiency :: "int list \<Rightarrow> pyfloat list \<Rightarrow> error + pyfloat list" where
  "calculate_efficiency threads speedups = comprehension efficiency_of (zip speedups threads)"

section \<open>\<open>generate_report\<close>\<close>

subsection \<open>Format specifications\<close>

definition digit_char :: "nat \<Rightarrow> char" where
  "digit_char d = char_of (of_char CHR ''0'' + d)"

fun nat_digits :: "nat \<Rightarrow> string" where
  "nat_digits n =
     (if n < 10 then [digit_char n] else nat_digits (n div 10) @ [digit_char (n mod 10)])"

declare nat_digits.simps [simp del]

text \<open>\<open>str(i)\<close> for an int, which is also the replacement field \<open>{i}\<close>.\<close>

definition str_int :: "int \<Rightarrow> string" where
  "str_int i = (if i < 0 then ''-'' @ nat_digits (nat (- i)) else nat_digits (nat i))"

text \<open>Numbers are right-aligned in a field of the given minimum width.\<close>

definition rjust :: "nat \<Rightarrow> string \<Rightarrow> string" where
  "rjust w s = replicate (w - length s) CHR '' '' @ s"

text \<open>The replacement field \<open>{i:wd}\<close>.\<close>

definition format_d :: "nat \<Rightarrow> int \<Rightarrow> string" where
  "format_d w i = rjust w (str_int i)"

text \<open>
  The replacement field \<open>{x:w.pf}\<close> for \<open>p > 0\<close>: the value rounded to \<open>p\<close> decimals,
  ties to even, with the sign of \<open>x\<close>.
\<close>

definition format_f :: "nat \<Rightarrow> nat \<Rightarrow> pyfloat \<Rightarrow> string" where
  "format_f w p x =
     (let n = nat (round_half_even (\<bar>x\<bar> * 10 ^ p));
          ip = nat_digits (n div 10 ^ p);
          fp = nat_digits (n mod 10 ^ p)
      in rjust w
           ((if x < 0 then ''-'' else []) @ ip @ ''.'' @ replicate (p - length fp) CHR ''0'' @ fp))"

subsection \<open>Built-ins used on the lists\<close>

text \<open>\<open>max(xs)\<close>: the first of the largest elements; \<open>ValueError\<close> on an empty list.\<close>

definition py_max :: "pyfloat list \<Rightarrow> error + pyfloat" where
  "py_max xs =
     (case xs of
        [] \<Rightarrow> Inl ValueError
      | x # ys \<Rightarrow> Inr (foldl (\<lambda>m y. if m < y then y else m) x ys))"

text \<open>\<open>xs.index(v)\<close>: the first position of \<open>v\<close>; \<open>ValueError\<close> when there is none.\<close>

fun py_index :: "'a list \<Rightarrow> 'a \<Rightarrow> error + nat" where
  "py_index [] v = Inl ValueError"
| "py_index (x # xs) v =
     (if x = v then Inr 0
      else case py_index xs v of Inl e \<Rightarrow> Inl e | Inr i \<Rightarrow> Inr (Suc i))"

text \<open>\<open>xs[i]\<close> for an index \<open>i \<ge> 0\<close>.\<close>

definition py_get :: "'a list \<Rightarrow> nat \<Rightarrow> error + 'a" where
  "py_get xs i = (if i < length xs then Inr (xs ! i) else Inl IndexError)"

subsection \<open>The text of the report\<close>

definition text_lines :: "string list \<Rightarrow> string" where
  "text_lines ls = concat (map (\<lambda>l. l @ ''\<newline>'') ls)"

definition report_head :: string where
  "report_head = text_lines [
     ''# Wa-Tor Simulation Performance Results'',
     [],
     ''## Test Configuration'',
     ''- **Steps**: 1000 chronons'',
     ''- **Grid Size**: 100x100'',
     ''- **Initial Population**: 2000 fish, 400 sharks'',
     ''- **Test Platform**: macOS (Apple Silicon/Intel)'',
     ''- **Go Version**: 1.25+'',
     [],
     ''## Performance Results'',
     [],
     ''### Execution Times'',
     [],
     ''| Threads | Execution Time (ms) | Speedup | Efficiency (%) |'',
     ''|---------|--------------------:|--------:|---------------:|'']"

definition table_row :: "int \<times> pyfloat \<times> pyfloat \<times> pyfloat \<Rightarrow> string" where
  "table_row = (\<lambda>(t, time, speedup, eff).
     ''| '' @ format_d 7 t @ '' | '' @ format_f 18 2 time @ '' | '' @ format_f 6 2 speedup
       @ ''x | '' @ format_f 13 1 eff @ ''% |\<newline>'')"

definition report_analysis :: string where
  "report_analysis = text_lines [
     [],
     ''### Analysis'',
     [],
     ''**Speedup**: Ratio of single-thread time to multi-thread time (higher is better)'',
     ''- Ideal speedup would be linear (2x for 2 threads, 4x for 4 threads, etc.)'',
     [],
     ''**Efficiency**: Percentage of ideal parallel performance achieved'',
     ''- 100% efficiency means perfect scaling'',
     ''- Values below 100% indicate overhead from synchronization and thread management'',
     [],
     ''### Observations'',
     []]"

definition best_performance :: "int \<Rightarrow> pyfloat \<Rightarrow> string" where
  "best_performance max_speedup_threads max_speedup =
     ''1. **Best Performance**: '' @ str_int max_speedup_threads @ '' thread(s) achieved ''
       @ format_f 0 2 max_speedup @ ''x speedup\<newline>''"

definition single_thread_baseline :: "pyfloat \<Rightarrow> string" where
  "single_thread_baseline t0 =
     ''2. **Single Thread Baseline**: '' @ format_f 0 2 t0 @ '' ms\<newline>''"

definition limited_scaling :: string where
  "limited_scaling = text_lines [
     ''3. **Limited Scaling**: The parallel implementation shows limited speedup, likely due to:'',
     ''   - Fine-grained locking causing contention'',
     ''   - Synchronization overhead exceeding computation benefits'',
     ''   - Random memory access patterns reducing cache efficiency'']"

definition good_scaling :: string where
  "good_scaling = text_lines [
     ''3. **Good Scaling**: The parallel implementation shows effective scaling'']"

definition moderate_scaling :: string where
  "moderate_scaling = text_lines [
     ''3. **Moderate Scaling**: Some benefit from parallelization, but with overhead'']"

definition report_notes :: string where
  "report_notes = text_lines [
     [],
     ''### Implementation Notes'',
     [],
     ''The parallel implementation uses:'',
     ''- Fine-grained mutex locking per entity operation'',
     ''- Random entity processing order (Fisher-Yates shuffle)'',
     ''- Work distribution across thread pool'',
     [],
     ''The mutex contention for shared grid access creates a bottleneck that limits'',
     ''parallel scaling. This is a common challenge in cellular automaton simulations'',
     ''where entities can interact with any neighboring cell.'',
     [],
     ''## Performance Graphs'',
     [],
     ''See the generated PNG files for visual representation:'',
     ''- `execution_time.png` - Execution time vs thread count'',
     ''- `speedup.png` - Speedup and efficiency vs thread count'']"

text \<open>The branch on the best speedup, with the thresholds \<open>1.5\<close> and \<open>2.0\<close>.\<close>

definition scaling_note :: "pyfloat \<Rightarrow> string" where
  "scaling_note max_speedup =
     (if max_speedup < 3 / 2 then limited_scaling
      else if 2 < max_speedup then good_scaling
      else moderate_scaling)"

definition generate_report ::
  "int list \<Rightarrow> pyfloat list \<Rightarrow> pyfloat list \<Rightarrow> pyfloat list \<Rightarrow> error + string" where
  "generate_report threads times' speedups efficiencies =
     (let report = report_head;
          report = report
            @ concat (map table_row (zip threads (zip times' (zip speedups efficiencies))));
          report = report @ report_analysis
      in case py_max speedups of
           Inl e \<Rightarrow> Inl e
         | Inr m \<Rightarrow>
        (case py_index speedups m of
           Inl e \<Rightarrow> Inl e
         | Inr max_speedup_idx \<Rightarrow>
        (case py_get threads max_speedup_idx of
           Inl e \<Rightarrow> Inl e
         | Inr max_speedup_threads \<Rightarrow>
        (case py_get speedups max_speedup_idx of
           Inl e \<Rightarrow> Inl e
         | Inr max_speedup \<Rightarrow>
             let report = report @ best_performance max_speedup_threads max_speedup
             in case py_get times' 0 of
                  Inl e \<Rightarrow> Inl e
                | Inr t0 \<Rightarrow>
                    let report = report @ single_thread_baseline t0;
                        report = report @ scaling_note max_speedup;
                        report = report @ report_notes
                    in Inr report))))"

section \<open>\<open>main\<close>\<close>

text \<open>
  How a run of \<open>main\<close> ends, as a function of the text of \<open>benchmark_results.txt\<close>:
  with the message that no results were found and exit status 1, with an exception that
  nothing catches, or with the report written to \<open>PERFORMANCE.md\<close>.  The graphs are
  drawn after the report is written, inside a \<open>try\<close> that catches every exception, and
  do not change how the run ends.
\<close>

datatype outcome = No_Results_Exit | Uncaught error | Report_Written string

definition main :: "string \<Rightarrow> outcome" where
  "main content =
     (case parse_results content of
        Inl e \<Rightarrow> Uncaught e
      | Inr (threads, times') \<Rightarrow>
          if threads = [] then No_Results_Exit
          else
            (case calculate_speedup threads times' of
               Inl e \<Rightarrow> Uncaught e
             | Inr speedups \<Rightarrow>
            (case calculate_efficiency threads speedups of
               Inl e \<Rightarrow> Uncaught e
             | Inr efficiencies \<Rightarrow>
            (case generate_report threads times' speedups efficiencies of
               Inl e \<Rightarrow> Uncaught e
             | Inr report \<Rightarrow> Report_Written report))))"

section \<open>Properties of rounding\<close>

lemma round_half_even_nonneg: "0 \<le> x \<Longrightarrow> 0 \<le> round_half_even x"
  by (auto simp: round_half_even_def Let_def)


lemma rnd_nonneg: "0 \<le> q \<Longrightarrow> 0 \<le> rnd q"
  by (auto simp: rnd_def Let_def split: prod.splits intro!: mult_nonneg_nonneg round_half_even_nonneg)

lemma rnd_one: "rnd 1 = 1"
  by code_simp




section \<open>Properties of the built-ins\<close>




section \<open>The report composer on empty input\<close>



section \<open>The metric calculator\<close>

lemma comprehension_Inr:
  "(\<And>x. x \<in> set xs \<Longrightarrow> f x = Inr (g x)) \<Longrightarrow> comprehension f xs = Inr (map g xs)"
  by (induction xs) simp_all


lemma comprehension_length:
  "comprehension f xs = Inr ys \<Longrightarrow> length ys = length xs"
  by (induction xs arbitrary: ys) (auto split: sum.splits)



text \<open>
  C8, as stated, promises the list of quotients for every input that is not empty and does
  not start with zero.  A zero time after the first one is divided by all the same, and
  the division raises \<open>ZeroDivisionError\<close>.
\<close>

theorem calculate_speedup_later_zero:
  "calculate_speedup [1, 2] [1, 0] = Inl ZeroDivisionError"
  by (simp add: calculate_speedup_def float_truediv_def)

text \<open>
  C8, amended: for an empty time sequence and for one whose first element is zero,
  \<open>calculate_speedup\<close> returns the empty list; for a non-empty sequence without any zero
  it returns, index for index, the first time divided by each element.
\<close>

theorem calculate_speedup_guarded:
  "(times' = [] \<or> hd times' = 0 \<longrightarrow> calculate_speedup threads times' = Inr []) \<and>
   (times' \<noteq> [] \<and> 0 \<notin> set times' \<longrightarrow>
      calculate_speedup threads times' = Inr (map (\<lambda>t. rnd (hd times' / t)) times'))"
proof (cases times')
  case Nil
  then show ?thesis by (simp add: calculate_speedup_def)
next
  case (Cons t0 ts)
  have "comprehension (\<lambda>t. float_truediv t0 t) times' = Inr (map (\<lambda>t. rnd (t0 / t)) times')"
    if "0 \<notin> set times'"
    by (rule comprehension_Inr) (use that in \<open>auto simp: float_truediv_def\<close>)
  with Cons show ?thesis by (auto simp: calculate_speedup_def)
qed

theorem calculate_speedup_guarded_witness:
  "calculate_speedup [1, 2] [0, 5] = Inr [] \<and>
   calculate_speedup [1, 2] [500, 300] = Inr [1, 7505999378950827 / 4503599627370496]"
proof -
  have r: "rnd (5 / 3) = 7505999378950827 / 4503599627370496" by code_simp
  show ?thesis
    using calculate_speedup_guarded [of "[0, 5]" "[1, 2]"]
      calculate_speedup_guarded [of "[500, 300]" "[1, 2]"]
    by (simp add: r rnd_one)
qed





section \<open>Properties of the matcher\<close>


lemma give_back_Some:
  "give_back n s k = Some (g, r) \<Longrightarrow> \<exists>m. 0 < m \<and> m \<le> n \<and> g = take m s \<and> k (drop m s) = Some r"
proof (induction n)
  case 0
  then show ?case by simp
next
  case (Suc n)
  show ?case
  proof (cases "k (drop (Suc n) s)")
    case None
    with Suc.prems have "give_back n s k = Some (g, r)" by simp
    from Suc.IH [OF this] show ?thesis by (auto intro: le_SucI)
  next
    case (Some x)
    with Suc.prems have "g = take (Suc n) s" "x = r" by simp_all
    with Some show ?thesis by blast
  qed
qed


lemma lazy_any_Some: "lazy_any s k = Some r \<Longrightarrow> \<exists>p t. s = p @ t \<and> k t = Some r"
proof (induction s)
  case Nil
  then show ?case by simp
next
  case (Cons c cs)
  show ?case
  proof (cases "k (c # cs)")
    case None
    with Cons.prems have "lazy_any cs k = Some r" by simp
    from Cons.IH [OF this] obtain p t where "cs = p @ t" "k t = Some r" by blast
    then have "c # cs = (c # p) @ t" by simp
    with \<open>k t = Some r\<close> show ?thesis by blast
  next
    case (Some x)
    with Cons.prems have "k (c # cs) = Some r" by simp
    then have "c # cs = [] @ (c # cs) \<and> k (c # cs) = Some r" by simp
    then show ?thesis by blast
  qed
qed



lemma unit_alt_units: "unit_alt s = Some (u, r) \<Longrightarrow> u \<in> units"
  by (auto simp: unit_alt_def units_def split: option.splits)









lemma re_findall_match:
  "match_here s = Some (g1, g2, g3, r) \<Longrightarrow> re_findall s = (g1, g2, g3) # re_findall r"
  by (subst re_findall.simps) simp

lemma time_field_units: "time_field t = Some (g2, u, r) \<Longrightarrow> u \<in> units"
proof -
  assume "time_field t = Some (g2, u, r)"
  then obtain s' where "greedy_plus is_time_char s' unit_alt = Some (g2, u, r)"
    by (auto simp: time_field_def split: option.splits)
  from give_back_Some [OF this [unfolded greedy_plus_def]]
  obtain m where "unit_alt (drop m s') = Some (u, r)" by blast
  then show ?thesis by (rule unit_alt_units)
qed

lemma match_here_units: "match_here s = Some (g1, g2, u, r) \<Longrightarrow> u \<in> units"
proof -
  assume "match_here s = Some (g1, g2, u, r)"
  then obtain s' where
    "greedy_plus is_digit s' (\<lambda>s''. lazy_any s'' time_field) = Some (g1, g2, u, r)"
    by (auto simp: match_here_def split: option.splits)
  from give_back_Some [OF this [unfolded greedy_plus_def]]
  obtain m where "lazy_any (drop m s') time_field = Some (g2, u, r)" by blast
  from lazy_any_Some [OF this] obtain t where "time_field t = Some (g2, u, r)" by blast
  then show ?thesis by (rule time_field_units)
qed

lemma re_findall_units: "(g1, g2, u) \<in> set (re_findall s) \<Longrightarrow> u \<in> units"
proof (induction s rule: re_findall.induct)
  case (1 s)
  show ?case
  proof (cases "match_here s")
    case None
    show ?thesis
    proof (cases s)
      case Nil
      with None have "re_findall s = []" by (subst re_findall.simps) simp
      with "1.prems" show ?thesis by simp
    next
      case (Cons c cs)
      with None have "re_findall s = re_findall cs" by (subst re_findall.simps) simp
      with "1.prems" have "(g1, g2, u) \<in> set (re_findall cs)" by simp
      with "1.IH" None Cons show ?thesis by blast
    qed
  next
    case (Some m)
    obtain h1 h2 h3 r where m: "m = (h1, h2, h3, r)" by (cases m)
    with Some have "re_findall s = (h1, h2, h3) # re_findall r" by (simp add: re_findall_match)
    with "1.prems" have "(g1, g2, u) = (h1, h2, h3) \<or> (g1, g2, u) \<in> set (re_findall r)"
      by simp
    then show ?thesis
    proof
      assume "(g1, g2, u) = (h1, h2, h3)"
      with Some m match_here_units show ?thesis by blast
    next
      assume "(g1, g2, u) \<in> set (re_findall r)"
      with "1.IH" Some m show ?thesis by blast
    qed
  qed
qed

lemma digits_val_nonneg: "0 \<le> digits_val s"
proof -
  have "0 \<le> n \<Longrightarrow> 0 \<le> foldl (\<lambda>n c. 10 * n + int (digit_val c)) n s" for n
    by (induction s arbitrary: n) simp_all
  then show ?thesis by (simp add: digits_val_def)
qed

lemma py_float_nonneg: "py_float s = Inr v \<Longrightarrow> 0 \<le> v"
  by (auto simp: py_float_def Let_def digits_val_nonneg split: list.splits if_splits
      intro!: rnd_nonneg)

lemma to_ms_nonneg: "to_ms v u = Inr x \<Longrightarrow> 0 \<le> v \<Longrightarrow> 0 \<le> x"
  by (auto simp: to_ms_def float_mul_def float_truediv_def split: if_splits intro!: rnd_nonneg)

lemma collect_Inr:
  assumes "collect ms threads ts = Inr (threads', ts')" and "\<forall>(g1, g2, u) \<in> set ms. u \<in> units"
  shows "\<exists>b. threads' = threads @ map (\<lambda>(g1, g2, u). py_int g1) ms \<and> ts' = ts @ b \<and>
           list_all2 converted ms b"
  using assms
proof (induction ms arbitrary: threads ts)
  case Nil
  then show ?case by simp
next
  case (Cons m ms)
  obtain g1 g2 u where m: "m = (g1, g2, u)" by (cases m)
  from Cons.prems(1) m obtain v x where v: "py_float g2 = Inr v" and x: "to_ms v u = Inr x"
    and rest: "collect ms (threads @ [py_int g1]) (ts @ [x]) = Inr (threads', ts')"
    by (auto split: sum.splits)
  from Cons.prems(2) m have u: "u \<in> units" and us: "\<forall>(g1, g2, u) \<in> set ms. u \<in> units"
    by auto
  from Cons.IH [OF rest us] obtain b where b:
    "threads' = (threads @ [py_int g1]) @ map (\<lambda>(g1, g2, u). py_int g1) ms"
    "ts' = (ts @ [x]) @ b" "list_all2 converted ms b" by blast
  have "converted m x"
    using u v x by (auto simp: converted_def m units_def to_ms_def micro_def split: if_splits)
  with b have "list_all2 converted (m # ms) (x # b)" by simp
  moreover from b m have "threads' = threads @ map (\<lambda>(g1, g2, u). py_int g1) (m # ms)"
    "ts' = ts @ x # b" by simp_all
  ultimately show ?case by blast
qed

lemma parse_results_Inr:
  assumes "parse_results content = Inr (threads, ts)"
  shows "threads = map (\<lambda>(g1, g2, u). py_int g1) (re_findall content)"
    and "list_all2 converted (re_findall content) ts"
proof -
  have "\<forall>(g1, g2, u) \<in> set (re_findall content). u \<in> units"
    using re_findall_units by blast
  from collect_Inr [OF assms [unfolded parse_results_def] this]
  show "threads = map (\<lambda>(g1, g2, u). py_int g1) (re_findall content)"
    and "list_all2 converted (re_findall content) ts" by simp_all
qed

lemma converted_nonneg: "converted m x \<Longrightarrow> 0 \<le> x"
  by (cases m) (auto simp: converted_def float_mul_def float_truediv_def
      dest!: py_float_nonneg intro!: rnd_nonneg)

section \<open>The extractor\<close>

text \<open>
  C5, as stated, makes every thread count positive.  The group \<open>(\d+)\<close> also captures
  \<open>0\<close>, and nothing in \<open>parse_results\<close> rejects it.
\<close>

theorem zero_thread_count_sample:
  "parse_results ''Threads: 0 Execution Time: 5ms'' = Inr ([0], [5])"
  by code_simp

text \<open>
  C5, amended: every sample that \<open>parse_results\<close> returns has a thread count that is a
  non-negative integer and an execution time in milliseconds that is non-negative, and
  there is one sample for each match.
\<close>

theorem samples_nonnegative:
  assumes "parse_results content = Inr (threads, times')"
  shows "(\<forall>t \<in> set threads. 0 \<le> t) \<and> (\<forall>x \<in> set times'. 0 \<le> x) \<and>
         length threads = length (re_findall content) \<and> length times' = length threads"
proof -
  note p = parse_results_Inr [OF assms]
  have "\<forall>t \<in> set threads. 0 \<le> t" by (auto simp: p(1) py_int_def digits_val_nonneg)
  moreover have "\<forall>x \<in> set times'. 0 \<le> x"
  proof
    fix x assume "x \<in> set times'"
    then obtain i where "i < length times'" "times' ! i = x" by (auto simp: in_set_conv_nth)
    with p(2) have "converted (re_findall content ! i) x" by (auto simp: list_all2_conv_all_nth)
    then show "0 \<le> x" by (rule converted_nonneg)
  qed
  moreover have "length threads = length (re_findall content)" by (simp add: p(1))
  moreover have "length times' = length threads"
    using p(2) by (simp add: p(1) list_all2_lengthD)
  ultimately show ?thesis by blast
qed

theorem samples_nonnegative_witness:
  "parse_results ''Threads: 2 Execution Time: 1.5s'' = Inr ([2], [1500]) \<and>
   list_all (\<lambda>t. 0 \<le> t) [2 :: int] \<and> list_all (\<lambda>x. 0 \<le> x) [1500 :: pyfloat] \<and>
   length [2 :: int] = length (re_findall ''Threads: 2 Execution Time: 1.5s'') \<and>
   length [1500 :: pyfloat] = length [2 :: int]"
proof -
  have p: "parse_results ''Threads: 2 Execution Time: 1.5s'' = Inr ([2], [1500])" by code_simp
  from samples_nonnegative [OF p] have "length [2 :: int] = length (re_findall ''Threads: 2 Execution Time: 1.5s'')"
    by blast
  with p show ?thesis by simp
qed





text \<open>The only exception of \<open>parse_results\<close> is the \<open>ValueError\<close> of \<open>float\<close>.\<close>

lemma parse_results_Inl: "parse_results content = Inl e \<Longrightarrow> e = ValueError"
proof -
  have py: "py_float s = Inl e \<Longrightarrow> e = ValueError" for s
    by (auto simp: py_float_def Let_def split: list.splits if_splits)
  have ms: "to_ms v u = Inl e \<Longrightarrow> False" for v u
    by (auto simp: to_ms_def float_truediv_def split: if_splits)
  have "collect ms th ts = Inl e \<Longrightarrow> e = ValueError" for ms th ts
    by (induction ms th ts rule: collect.induct) (auto split: sum.splits dest: py ms)
  then show "parse_results content = Inl e \<Longrightarrow> e = ValueError"
    by (simp add: parse_results_def)
qed

text \<open>
  C4: record extraction should never raise and should skip a record with a malformed
  number.  The class \<open>[\d.]+\<close> also captures \<open>1.2.3\<close>, the pattern matches, and
  \<open>float\<close> raises \<open>ValueError\<close> out of \<open>parse_results\<close>.
\<close>

theorem malformed_number_raises:
  "re_findall ''Threads: 1 Execution Time: 1.2.3ms'' = [(''1'', ''1.2.3'', ''ms'')] \<and>
   collect [(''1'', ''1.2.3'', ''ms'')] [] [] = Inl ValueError \<and>
   parse_results ''Threads: 1 Execution Time: 1.2.3ms'' = Inl ValueError"
  by code_simp

text \<open>
  C7: whenever \<open>parse_results\<close> returns, the time of each match is the captured value
  multiplied by 1000 for the unit \<open>s\<close>, divided by 1000 for \<open>\<mu>s\<close> and unchanged for
  \<open>ms\<close>.  In binary64 arithmetic \<open>750000\<mu>s\<close> becomes exactly 750.0 ms and \<open>1.2s\<close>
  becomes exactly 1200.0 ms.
\<close>

theorem unit_normalisation:
  "(parse_results content = Inr (threads, times') \<longrightarrow>
      list_all2 (\<lambda>(g1, g2, unit) time_ms. \<exists>time_value.
          py_float g2 = Inr time_value \<and>
          (unit = ''s'' \<and> time_ms = float_mul time_value 1000 \<or>
           unit = [micro, CHR ''s''] \<and> float_truediv time_value 1000 = Inr time_ms \<or>
           unit = ''ms'' \<and> time_ms = time_value))
        (re_findall content) times') \<and>
   parse_results (''Threads: 4 Execution Time: 750000'' @ [micro, CHR ''s'']) = Inr ([4], [750]) \<and>
   parse_results ''Threads: 8 Execution Time: 1.2s'' = Inr ([8], [1200])"
proof (intro conjI impI)
  assume "parse_results content = Inr (threads, times')"
  from parse_results_Inr(2) [OF this]
  show "list_all2 (\<lambda>(g1, g2, unit) time_ms. \<exists>time_value.
          py_float g2 = Inr time_value \<and>
          (unit = ''s'' \<and> time_ms = float_mul time_value 1000 \<or>
           unit = [micro, CHR ''s''] \<and> float_truediv time_value 1000 = Inr time_ms \<or>
           unit = ''ms'' \<and> time_ms = time_value))
        (re_findall content) times'"
    unfolding converted_def .
next
  show "parse_results (''Threads: 4 Execution Time: 750000'' @ [micro, CHR ''s'']) =
      Inr ([4], [750])"
    by code_simp
next
  show "parse_results ''Threads: 8 Execution Time: 1.2s'' = Inr ([8], [1200])"
    by code_simp
qed

theorem unit_normalisation_witness:
  "parse_results ''Threads: 2 Execution Time: 0.25s'' = Inr ([2], [250]) \<and>
   list_all2 (\<lambda>(g1, g2, unit) time_ms. \<exists>time_value.
          py_float g2 = Inr time_value \<and>
          (unit = ''s'' \<and> time_ms = float_mul time_value 1000 \<or>
           unit = [micro, CHR ''s''] \<and> float_truediv time_value 1000 = Inr time_ms \<or>
           unit = ''ms'' \<and> time_ms = time_value))
        (re_findall ''Threads: 2 Execution Time: 0.25s'') [250]"
proof -
  have p: "parse_results ''Threads: 2 Execution Time: 0.25s'' = Inr ([2], [250])"
    by code_simp
  with unit_normalisation [of "''Threads: 2 Execution Time: 0.25s''" "[2]" "[250]"]
  show ?thesis by blast
qed

section \<open>The driver on a zero baseline\<close>

text \<open>
  When the first time is zero \<open>calculate_speedup\<close> returns the empty list, and so does
  \<open>calculate_efficiency\<close>; \<open>main\<close> passes both to \<open>generate_report\<close>, where
  \<open>max\<close> raises.
\<close>

lemma zero_baseline_uncaught:
  assumes "parse_results content = Inr (threads, 0 # ts)" and "threads \<noteq> []"
  shows "main content = Uncaught ValueError"
  using assms
  by (simp add: main_def calculate_speedup_def calculate_efficiency_def generate_report_def
      py_max_def)

text \<open>
  C2: a zero baseline should be reported like a log without samples, not raised.  On the
  log \<open>Threads: 1 Execution Time: 0ms\<close> the metrics are empty and no report is
  written, but the run ends with the \<open>ValueError\<close> of \<open>max\<close>, which nothing catches,
  and not with the message and exit of the check for an empty sample list.
\<close>

theorem main_zero_baseline:
  "parse_results ''Threads: 1 Execution Time: 0ms'' = Inr ([1], [0]) \<and>
   calculate_speedup [1] [0] = Inr [] \<and>
   calculate_efficiency [1] [] = Inr [] \<and>
   generate_report [1] [0] [] [] = Inl ValueError \<and>
   main ''Threads: 1 Execution Time: 0ms'' = Uncaught ValueError"
  by code_simp

section \<open>The narrative of the report\<close>




end
